theory Spec2Isabelle
  imports Complex_Main "HOL-Library.Sublist"
begin

section \<open>Python values used by pwrstat-scraper.py\<close>

text \<open>
  The status text is modelled as a \<open>string\<close> of ASCII characters (pwrstat prints ASCII).
  Exceptions of the Python code are values: a function that may raise returns
  \<open>py_error + 'a\<close>, with \<open>Inl\<close> carrying the exception.
\<close>

datatype py_error =
    IndexError
  | KeyError string
  | ValueError string
  | OverflowError string

text \<open>\<open>xs[i]\<close> for a Python list: a negative index counts from the end, and an index
  outside the list raises IndexError.\<close>

definition py_getitem :: "'a list \<Rightarrow> int \<Rightarrow> py_error + 'a" where
  "py_getitem xs i =
     (let pos = (if i < 0 then i + int (length xs) else i)
      in if pos < 0 \<or> int (length xs) \<le> pos then Inl IndexError else Inr (xs ! nat pos))"

text \<open>\<open>s.split(sep)\<close> for a separator of one character: the pieces between the
  occurrences of the separator, empty pieces included; the result is never the empty list.\<close>

fun py_split :: "char \<Rightarrow> string \<Rightarrow> string list" where
  "py_split sep [] = [[]]"
| "py_split sep (c # cs) =
     (if c = sep then [] # py_split sep cs
      else (case py_split sep cs of
              [] \<Rightarrow> [[c]]
            | piece # pieces \<Rightarrow> (c # piece) # pieces))"

text \<open>The ASCII characters for which \<open>str.isspace\<close> holds: tab, line feed, vertical tab,
  form feed, carriage return, the four separators 0x1C to 0x1F, and the space.\<close>

definition py_isspace :: "char \<Rightarrow> bool" where
  "py_isspace c =
     (c = CHR '' '' \<or> c = CHR 0x09 \<or> c = CHR 0x0A \<or> c = CHR 0x0B \<or> c = CHR 0x0C \<or>
      c = CHR 0x0D \<or> c = CHR 0x1C \<or> c = CHR 0x1D \<or> c = CHR 0x1E \<or> c = CHR 0x1F)"

text \<open>\<open>s.strip()\<close>: leading and trailing whitespace removed.\<close>

definition py_strip :: "string \<Rightarrow> string" where
  "py_strip s = rev (dropWhile py_isspace (rev (dropWhile py_isspace s)))"

text \<open>\<open>sub in s\<close> for strings: \<open>sub\<close> occurs in \<open>s\<close> as a contiguous piece.\<close>

fun py_in :: "string \<Rightarrow> string \<Rightarrow> bool" where
  "py_in sub [] = (sub = [])"
| "py_in sub (c # cs) = (prefix sub (c # cs) \<or> py_in sub cs)"

text \<open>\<open>s.replace(' ', '')\<close>: every space removed.\<close>

definition remove_spaces :: "string \<Rightarrow> string" where
  "remove_spaces s = filter (\<lambda>c. c \<noteq> CHR '' '') s"

section \<open>parse_pwrstat\<close>

type_synonym pwrstat_dict = "string \<rightharpoonup> string"

text \<open>The body of the \<open>for\<close> loop of \<open>parse_pwrstat\<close> for a line that passed both
  \<open>continue\<close> guards: the key and the value that are stored for it.\<close>

definition parse_line :: "string \<Rightarrow> py_error + (string \<times> string)" where
  "parse_line line =
     (let line_split = py_split CHR ''.'' line in
      case py_getitem line_split 0 of
        Inl e \<Rightarrow> Inl e
      | Inr first \<Rightarrow>
          let key = py_strip first in
          if py_in ''Remaining Runtime'' line
          then (case py_getitem line_split (- 2) of
                  Inl e \<Rightarrow> Inl e
                | Inr seg \<Rightarrow> Inr (key, py_strip seg))
          else (case py_getitem line_split (- 1) of
                  Inl e \<Rightarrow> Inl e
                | Inr seg \<Rightarrow> Inr (key, py_strip seg)))"

text \<open>The \<open>for\<close> loop over the lines, threading the dictionary that is being filled.\<close>

fun parse_lines :: "pwrstat_dict \<Rightarrow> string list \<Rightarrow> py_error + pwrstat_dict" where
  "parse_lines d [] = Inr d"
| "parse_lines d (line # lines) =
     (if line = [] then parse_lines d lines
      else if CHR ''.'' \<notin> set line then parse_lines d lines
      else (case parse_line line of
              Inl e \<Rightarrow> Inl e
            | Inr (key, val) \<Rightarrow> parse_lines (d(key \<mapsto> val)) lines))"

definition parse_pwrstat :: "string \<Rightarrow> py_error + pwrstat_dict" where
  "parse_pwrstat stdout_text =
     parse_lines Map.empty (drop 3 (py_split CHR ''\<newline>'' stdout_text))"

section \<open>write_influxdb\<close>

definition STAT_COMMAND :: "string list" where
  "STAT_COMMAND = [''pwrstat'', ''-status'']"

definition IMPORTANT_PWRSTAT_TAG_KEYS :: "string list" where
  "IMPORTANT_PWRSTAT_TAG_KEYS =
     [''Model Name'', ''Firmware Number'', ''Rating Voltage'', ''Rating Power'']"

definition IMPORTANT_PWRSTAT_VALUE_KEYS :: "string list" where
  "IMPORTANT_PWRSTAT_VALUE_KEYS =
     [''State'', ''Utility Voltage'', ''Output Voltage'', ''Battery Capacity'',
      ''Remaining Runtime'', ''Load'']"

text \<open>
  The builtin \<open>float\<close> is not code of this program: it is a parameter \<open>float_of\<close> of the
  model, which gives the float that a string denotes, or \<open>None\<close> when the string is no
  float literal. A Python float is modelled by the real number it stands for.
  \<open>py_float\<close> is the call \<open>float(x)\<close>, which raises ValueError in the second case.
\<close>

type_synonym float_builtin = "string \<Rightarrow> real option"

definition py_float :: "float_builtin \<Rightarrow> string \<Rightarrow> py_error + real" where
  "py_float float_of x = (case float_of x of None \<Rightarrow> Inl (ValueError x) | Some v \<Rightarrow> Inr v)"

definition IMPORTANT_PWRSTAT_STAT_KEYS_TRANSFORMS ::
    "float_builtin \<Rightarrow> string \<rightharpoonup> (string \<Rightarrow> py_error + real)" where
  "IMPORTANT_PWRSTAT_STAT_KEYS_TRANSFORMS float_of =
     [''State'' \<mapsto> (\<lambda>x. Inr (if x = ''Normal'' then 0 else 1)),
      ''Battery Capacity'' \<mapsto> (\<lambda>x. py_float float_of x)]"

text \<open>The dictionary \<open>json_body\<close>; its entry \<open>'fields'\<close> is the field \<open>fields'\<close> here.\<close>

record json_body =
  measurement :: string
  tags :: "string \<rightharpoonup> string"
  fields' :: "string \<rightharpoonup> real"
  time :: "string option"

text \<open>The first loop of \<open>write_influxdb\<close>, over the tag keys. \<open>pwrstat_dict[tag]\<close> raises
  KeyError when the key is missing.\<close>

fun tags_loop :: "pwrstat_dict \<Rightarrow> string list \<Rightarrow> json_body \<Rightarrow> py_error + json_body" where
  "tags_loop d [] body = Inr body"
| "tags_loop d (tag # rest) body =
     (let key = remove_spaces tag in
      case d tag of
        None \<Rightarrow> Inl (KeyError tag)
      | Some raw \<Rightarrow>
          (case py_getitem (py_split CHR '' '' raw) 0 of
             Inl e \<Rightarrow> Inl e
           | Inr v \<Rightarrow> tags_loop d rest (body\<lparr>tags := (tags body)(key \<mapsto> v)\<rparr>)))"

text \<open>Lines 137 to 140: the transform of the key when it has one, \<open>float\<close> otherwise.\<close>

definition transform_value :: "float_builtin \<Rightarrow> string \<Rightarrow> string \<Rightarrow> py_error + real" where
  "transform_value float_of stat_key tok =
     (case IMPORTANT_PWRSTAT_STAT_KEYS_TRANSFORMS float_of stat_key of
        Some transform \<Rightarrow> transform tok
      | None \<Rightarrow> py_float float_of tok)"

text \<open>The second loop of \<open>write_influxdb\<close>, over the value keys.\<close>

fun fields_loop ::
    "float_builtin \<Rightarrow> pwrstat_dict \<Rightarrow> string list \<Rightarrow> json_body \<Rightarrow> py_error + json_body" where
  "fields_loop float_of d [] body = Inr body"
| "fields_loop float_of d (stat_key # rest) body =
     (let key = remove_spaces stat_key in
      case d stat_key of
        None \<Rightarrow> Inl (KeyError stat_key)
      | Some raw \<Rightarrow>
          (case py_getitem (py_split CHR '' '' raw) 0 of
             Inl e \<Rightarrow> Inl e
           | Inr tok \<Rightarrow>
               (case transform_value float_of stat_key tok of
                  Inl e \<Rightarrow> Inl e
                | Inr v \<Rightarrow>
                    fields_loop float_of d rest (body\<lparr>fields' := (fields' body)(key \<mapsto> v)\<rparr>))))"

text \<open>Lines 122 to 141 of \<open>write_influxdb\<close>: the body with its tags and fields filled in,
  before the time stamp is set. This is the field mapper of the specification.\<close>

definition build_json_body :: "float_builtin \<Rightarrow> string \<Rightarrow> pwrstat_dict \<Rightarrow> py_error + json_body" where
  "build_json_body float_of series_name d =
     (case tags_loop d IMPORTANT_PWRSTAT_TAG_KEYS
             \<lparr>measurement = series_name, tags = Map.empty, fields' = Map.empty, time = None\<rparr> of
        Inl e \<Rightarrow> Inl e
      | Inr body \<Rightarrow> fields_loop float_of d IMPORTANT_PWRSTAT_VALUE_KEYS body)"

text \<open>
  What the program does to the outside world is recorded as a list of events, in the
  order in which they happen.
\<close>

datatype event =
    Ping
  | CreateDatabase string
  | RunCommand "string list"
  | LogInfo string
  | LogError string
  | LogDebug json_body
  | WritePoints "json_body list"
  | Sleep real

text \<open>
  What the outside world answers in one pass of the scrape loop: the exit code, the
  decoded standard output and standard error of the status command, the text of
  \<open>datetime.utcnow().isoformat()\<close>, and the result of \<open>client.write_points\<close>, should it be
  called.
\<close>

record cycle_env =
  returncode :: int
  out :: string
  err :: string
  utcnow :: string
  write_points_result :: bool

text \<open>\<open>write_influxdb\<close>: the events it causes, and the exception it raises, if any.\<close>

definition write_influxdb ::
    "float_builtin \<Rightarrow> cycle_env \<Rightarrow> string \<Rightarrow> pwrstat_dict \<Rightarrow> bool \<Rightarrow> event list \<times> (py_error + unit)" where
  "write_influxdb float_of env series_name d dry =
     (case build_json_body float_of series_name d of
        Inl e \<Rightarrow> ([], Inl e)
      | Inr body \<Rightarrow>
          (let body = body\<lparr>time := Some (utcnow env)\<rparr> in
           if dry then ([LogDebug body], Inr ())
           else if \<not> write_points_result env
             then ([LogDebug body, WritePoints [body], LogError ''Error writing to InfluxDB!''],
                   Inr ())
             else ([LogDebug body, WritePoints [body]], Inr ())))"

section \<open>run_scrape\<close>

record scrape_args =
  series :: string
  dry_run :: bool
  interval :: real

record influx_config =
  db :: string
  admin :: bool

text \<open>How a run of the loop stands: still running (the recorded answers of the outside
  world are used up), returned, or left by an exception.\<close>

datatype loop_status = Running | Returned | Raised py_error

text \<open>
  \<open>time.sleep\<close> is not code of this program either: it is a parameter \<open>sleep_of\<close> of the
  model, which says for a number of seconds whether the call returns (\<open>None\<close>) or which
  exception it raises. \<open>time.sleep\<close> raises ValueError for a negative number (and
  OverflowError for one too large for the clock), and \<open>--interval\<close> accepts every float.
\<close>

type_synonym sleep_builtin = "real \<Rightarrow> py_error option"

text \<open>One pass of the \<open>while True\<close> loop. \<open>Running\<close> says that the pass reached its end
  and the loop goes on. The event \<open>Sleep\<close> is the call of \<open>time.sleep\<close>; when the call
  raises, the exception leaves the loop.\<close>

definition scrape_cycle ::
    "sleep_builtin \<Rightarrow> float_builtin \<Rightarrow> scrape_args \<Rightarrow> cycle_env \<Rightarrow> event list \<times> loop_status" where
  "scrape_cycle sleep_of float_of args env =
     (if returncode env \<noteq> 0
      then ([RunCommand STAT_COMMAND,
             LogError (''Error executing ['pwrstat', '-status']: '' @ py_strip (err env))],
            Returned)
      else (case parse_pwrstat (out env) of
              Inl e \<Rightarrow> ([RunCommand STAT_COMMAND], Raised e)
            | Inr d \<Rightarrow>
                (case write_influxdb float_of env (series args) d (dry_run args) of
                   (evs, Inl e) \<Rightarrow> (RunCommand STAT_COMMAND # evs, Raised e)
                 | (evs, Inr u) \<Rightarrow>
                     (RunCommand STAT_COMMAND # evs @ [Sleep (interval args)],
                      (case sleep_of (interval args) of
                         None \<Rightarrow> Running
                       | Some e \<Rightarrow> Raised e)))))"

text \<open>The \<open>while True\<close> loop, run against the answers of the outside world for its
  first passes.\<close>

fun scrape_loop ::
    "sleep_builtin \<Rightarrow> float_builtin \<Rightarrow> scrape_args \<Rightarrow> cycle_env list \<Rightarrow> event list \<times> loop_status" where
  "scrape_loop sleep_of float_of args [] = ([], Running)"
| "scrape_loop sleep_of float_of args (env # envs) =
     (case scrape_cycle sleep_of float_of args env of
        (evs, Running) \<Rightarrow>
          (case scrape_loop sleep_of float_of args envs of (evs', st) \<Rightarrow> (evs @ evs', st))
      | (evs, Returned) \<Rightarrow> (evs, Returned)
      | (evs, Raised e) \<Rightarrow> (evs, Raised e))"

text \<open>\<open>run_scrape\<close>: the connection check, the optional creation of the database, then
  the loop. \<open>ping_response\<close> is what \<open>client.ping()\<close> returns (empty is false in Python),
  \<open>client_repr\<close> the text of the client object.\<close>

definition run_scrape ::
    "sleep_builtin \<Rightarrow> float_builtin \<Rightarrow> scrape_args \<Rightarrow> influx_config \<Rightarrow> string \<Rightarrow> string \<Rightarrow> cycle_env list
       \<Rightarrow> event list \<times> loop_status" where
  "run_scrape sleep_of float_of args config ping_response client_repr envs =
     (if ping_response \<noteq> []
      then (case scrape_loop sleep_of float_of args envs of
              (evs, st) \<Rightarrow>
                ([Ping, LogInfo (''Connected to InfluxDB: '' @ ping_response)]
                 @ (if admin config then [CreateDatabase (db config)] else [])
                 @ [LogInfo (''InfluxDB URL: '' @ client_repr), LogInfo ''Starting up scraper...'']
                 @ evs, st))
      else ([Ping, LogError ''Error connecting to InfluxDB.''], Returned))"

text \<open>Whether an event is a write to the sink.\<close>

fun is_write :: "event \<Rightarrow> bool" where
  "is_write (WritePoints ps) = True"
| "is_write ev = False"

text \<open>Whether the dictionary has the key, and the first word of its value passes the
  transform of the key (or \<open>float\<close>).\<close>

definition coercible :: "float_builtin \<Rightarrow> pwrstat_dict \<Rightarrow> string \<Rightarrow> bool" where
  "coercible float_of d stat_key =
     (case d stat_key of
        None \<Rightarrow> False
      | Some raw \<Rightarrow>
          (case transform_value float_of stat_key (hd (py_split CHR '' '' raw)) of
             Inl e \<Rightarrow> False
           | Inr v \<Rightarrow> True))"

text \<open>
  An instance of \<open>float_of\<close> for running the model on concrete inputs: a non-empty string
  of decimal digits denotes its number, as it does for \<open>float\<close>; every other string is
  rejected here. It is used only at strings of digits and at strings that are no float
  literals.
\<close>

definition is_digit :: "char \<Rightarrow> bool" where
  "is_digit c = (c \<in> set ''0123456789'')"

fun digits_value :: "nat \<Rightarrow> string \<Rightarrow> nat option" where
  "digits_value acc [] = Some acc"
| "digits_value acc (c # cs) =
     (if is_digit c then digits_value (10 * acc + (of_char c - 48)) cs else None)"

definition float_of_digits :: float_builtin where
  "float_of_digits s = (if s = [] then None else map_option real (digits_value 0 s))"

text \<open>The status text that consists of the given lines: \<open>'\n'.join(lines)\<close>.\<close>

fun join_lines :: "string list \<Rightarrow> string" where
  "join_lines [] = []"
| "join_lines [l] = l"
| "join_lines (l # l' # ls) = l @ CHR ''\<newline>'' # join_lines (l' # ls)"

text \<open>The label of a line: the text before its first period, trimmed.\<close>

definition line_label :: "string \<Rightarrow> string" where
  "line_label line = py_strip (takeWhile (\<lambda>c. c \<noteq> CHR ''.'') line)"

text \<open>
  An instance of \<open>sleep_of\<close> for running the model on concrete inputs: the call raises
  ValueError for a negative number of seconds, as \<open>time.sleep\<close> does, and returns for the
  other numbers used here.
\<close>

definition sleep_nonneg :: sleep_builtin where
  "sleep_nonneg secs =
     (if secs < 0 then Some (ValueError ''sleep length must be non-negative'') else None)"

text \<open>An example of the status text with the dictionary and the body that belong to it,
  and an example of the answers of the outside world in one pass of the loop, for running
  the model on concrete inputs.\<close>

definition example_status_text :: string where
  "example_status_text = join_lines
     ['''',
      ''The UPS information shows as following:'',
      '''',
      ''  Properties:'',
      ''    Model Name.... ModelX 1000'',
      ''    Firmware Number.... 12'',
      ''    Rating Voltage.... 120 V'',
      ''    Rating Power.... 500 Watt'',
      '''',
      ''  Current UPS status:'',
      ''    State.... Normal'',
      ''    Utility Voltage.... 120 V'',
      ''    Output Voltage.... 120 V'',
      ''    Battery Capacity.... 100 %'',
      ''    Remaining Runtime.... 45 min.'',
      ''    Load.... 30 Watt(20 %)'',
      '''']"

definition example_dict :: pwrstat_dict where
  "example_dict =
     [''Model Name'' \<mapsto> ''ModelX 1000'', ''Firmware Number'' \<mapsto> ''12'',
      ''Rating Voltage'' \<mapsto> ''120 V'', ''Rating Power'' \<mapsto> ''500 Watt'',
      ''State'' \<mapsto> ''Normal'', ''Utility Voltage'' \<mapsto> ''120 V'',
      ''Output Voltage'' \<mapsto> ''120 V'', ''Battery Capacity'' \<mapsto> ''100 %'',
      ''Remaining Runtime'' \<mapsto> ''45 min'', ''Load'' \<mapsto> ''30 Watt(20 %)'']"

definition example_body :: json_body where
  "example_body =
     \<lparr>measurement = ''ups'',
      tags = [''ModelName'' \<mapsto> ''ModelX'', ''FirmwareNumber'' \<mapsto> ''12'',
              ''RatingVoltage'' \<mapsto> ''120'', ''RatingPower'' \<mapsto> ''500''],
      fields' = [''State'' \<mapsto> 0, ''UtilityVoltage'' \<mapsto> 120, ''OutputVoltage'' \<mapsto> 120,
                 ''BatteryCapacity'' \<mapsto> 100, ''RemainingRuntime'' \<mapsto> 45, ''Load'' \<mapsto> 30],
      time = None\<rparr>"

definition example_env :: cycle_env where
  "example_env =
     \<lparr>returncode = 0, out = example_status_text, err = [],
      utcnow = ''2020-01-01T00:00:00'', write_points_result = True\<rparr>"

section \<open>Facts about the string operations\<close>

lemma py_split_not_Nil: "py_split sep s \<noteq> []"
  by (induction s) (auto split: list.splits)

lemma length_py_split: "length (py_split sep s) = Suc (length (filter (\<lambda>c. c = sep) s))"
proof (induction s)
  case Nil
  show ?case by simp
next
  case (Cons c cs)
  obtain piece pieces where "py_split sep cs = piece # pieces"
    using py_split_not_Nil [of sep cs] by (cases "py_split sep cs") auto
  with Cons show ?case by auto
qed

lemma py_split_two_segments:
  assumes "sep \<in> set s"
  shows "2 \<le> length (py_split sep s)"
proof -
  from assms have "filter (\<lambda>c. c = sep) s \<noteq> []"
    by (simp add: filter_empty_conv)
  then have "0 < length (filter (\<lambda>c. c = sep) s)" by simp
  with length_py_split [of sep s] show ?thesis by linarith
qed

lemma hd_py_split: "hd (py_split sep s) = takeWhile (\<lambda>c. c \<noteq> sep) s"
proof (induction s)
  case Nil
  show ?case by simp
next
  case (Cons c cs)
  obtain piece pieces where "py_split sep cs = piece # pieces"
    using py_split_not_Nil [of sep cs] by (cases "py_split sep cs") auto
  with Cons show ?case by auto
qed

lemma py_getitem_first:
  "xs \<noteq> [] \<Longrightarrow> py_getitem xs 0 = Inr (hd xs)"
  by (cases xs) (simp_all add: py_getitem_def)

lemma py_getitem_last:
  "xs \<noteq> [] \<Longrightarrow> py_getitem xs (- 1) = Inr (last xs)"
proof -
  assume ne: "xs \<noteq> []"
  then have "0 < length xs" by simp
  then have n: "nat (int (length xs) - 1) = length xs - 1" by linarith
  from ne have "py_getitem xs (- 1) = Inr (xs ! (length xs - 1))"
    using n by (simp add: py_getitem_def Let_def)
  with ne show ?thesis by (simp add: last_conv_nth)
qed

lemma py_getitem_second_last:
  "2 \<le> length xs \<Longrightarrow> py_getitem xs (- 2) = Inr (xs ! (length xs - 2))"
proof -
  assume len: "2 \<le> length xs"
  then have n: "nat (int (length xs) - 2) = length xs - 2" by linarith
  from len show ?thesis using n by (simp add: py_getitem_def Let_def)
qed

lemma py_in_sublist: "py_in sub s = sublist sub s"
  by (induction s) (simp_all add: sublist_Cons_right)

lemma py_strip_decompose: "\<exists>pre post. s = pre @ py_strip s @ post"
proof -
  let ?t = "dropWhile py_isspace s"
  have "s = takeWhile py_isspace s @ ?t" by simp
  moreover have "?t = rev (dropWhile py_isspace (rev ?t)) @ rev (takeWhile py_isspace (rev ?t))"
    by (metis rev_append rev_rev_ident takeWhile_dropWhile_id)
  ultimately have "s = takeWhile py_isspace s @ py_strip s @ rev (takeWhile py_isspace (rev ?t))"
    by (simp add: py_strip_def)
  then show ?thesis by blast
qed

section \<open>Facts about parse_pwrstat\<close>

lemma parse_line_result:
  assumes "CHR ''.'' \<in> set line"
  shows "parse_line line =
     Inr (py_strip (hd (py_split CHR ''.'' line)),
          py_strip (if py_in ''Remaining Runtime'' line
                    then py_split CHR ''.'' line ! (length (py_split CHR ''.'' line) - 2)
                    else last (py_split CHR ''.'' line)))"
proof -
  let ?segs = "py_split CHR ''.'' line"
  have ne: "?segs \<noteq> []" by (rule py_split_not_Nil)
  have two: "2 \<le> length ?segs" using assms by (rule py_split_two_segments)
  show ?thesis
    unfolding parse_line_def Let_def
    by (simp add: py_getitem_first [OF ne] py_getitem_last [OF ne]
        py_getitem_second_last [OF two])
qed

lemma label_in_line:
  assumes "py_strip (hd (py_split CHR ''.'' line)) = label"
  shows "py_in label line"
proof -
  let ?first = "takeWhile (\<lambda>c. c \<noteq> CHR ''.'') line"
  obtain pre post where "?first = pre @ py_strip ?first @ post"
    using py_strip_decompose by blast
  with assms have first: "?first = pre @ label @ post"
    by (simp add: hd_py_split)
  have "line = ?first @ dropWhile (\<lambda>c. c \<noteq> CHR ''.'') line" by simp
  with first have "line = pre @ label @ (post @ dropWhile (\<lambda>c. c \<noteq> CHR ''.'') line)"
    by (metis append.assoc)
  then have "sublist label line" unfolding sublist_def by blast
  then show ?thesis by (simp add: py_in_sublist)
qed

lemma parse_lines_total: "\<exists>d'. parse_lines d lines = Inr d'"
proof (induction lines arbitrary: d)
  case Nil
  show ?case by simp
next
  case (Cons line lines)
  show ?case
  proof (cases "line = [] \<or> CHR ''.'' \<notin> set line")
    case True
    then show ?thesis using Cons.IH [of d] by auto
  next
    case False
    then have dot: "CHR ''.'' \<in> set line" and ne: "line \<noteq> []" by auto
    obtain key val where kv: "parse_line line = Inr (key, val)"
      using parse_line_result [OF dot] by blast
    have "parse_lines d (line # lines) = parse_lines (d(key \<mapsto> val)) lines"
      using ne dot kv by simp
    with Cons.IH [of "d(key \<mapsto> val)"] show ?thesis by (simp only:)
  qed
qed

lemma py_split_no_sep: "sep \<notin> set s \<Longrightarrow> py_split sep s = [s]"
  by (induction s) auto

lemma py_split_append_sep:
  "sep \<notin> set s \<Longrightarrow> py_split sep (s @ sep # rest) = s # py_split sep rest"
  by (induction s) auto

lemma py_split_join_lines:
  assumes "ls \<noteq> []" "\<forall>l\<in>set ls. CHR ''\<newline>'' \<notin> set l"
  shows "py_split CHR ''\<newline>'' (join_lines ls) = ls"
  using assms
proof (induction ls rule: join_lines.induct)
  case 1
  then show ?case by simp
next
  case (2 l)
  then show ?case by (simp add: py_split_no_sep)
next
  case (3 l l' ls)
  then show ?case by (simp add: py_split_append_sep)
qed

lemma parse_line_label:
  "CHR ''.'' \<in> set line \<Longrightarrow> \<exists>v. parse_line line = Inr (line_label line, v)"
  using parse_line_result [of line] by (simp add: line_label_def hd_py_split)

lemma parse_lines_dom:
  assumes "\<forall>l\<in>set lines. l \<noteq> [] \<and> CHR ''.'' \<in> set l"
  shows "\<exists>d'. parse_lines d lines = Inr d' \<and> dom d' = dom d \<union> set (map line_label lines)"
  using assms
proof (induction lines arbitrary: d)
  case Nil
  show ?case by simp
next
  case (Cons line lines)
  then have ne: "line \<noteq> []" and dot: "CHR ''.'' \<in> set line" by simp_all
  obtain v where v: "parse_line line = Inr (line_label line, v)"
    using parse_line_label [OF dot] by blast
  have step: "parse_lines d (line # lines) = parse_lines (d(line_label line \<mapsto> v)) lines"
    using ne dot v by simp
  from Cons.prems have "\<forall>l\<in>set lines. l \<noteq> [] \<and> CHR ''.'' \<in> set l" by simp
  from Cons.IH [OF this, of "d(line_label line \<mapsto> v)"] obtain d' where
    d': "parse_lines (d(line_label line \<mapsto> v)) lines = Inr d'"
    "dom d' = dom (d(line_label line \<mapsto> v)) \<union> set (map line_label lines)"
    by blast
  from d'(2) have "dom d' = dom d \<union> set (map line_label (line # lines))" by auto
  with d'(1) step show ?case by (simp only:) blast
qed

section \<open>Claims about parse_pwrstat\<close>

text \<open>
  C10. \<open>parse_pwrstat\<close> is total: for every input string it returns a dictionary and
  raises nothing. A line that reaches \<open>line.split('.')\<close> contains a period, so the split
  has at least two pieces and the accesses \<open>[0]\<close>, \<open>[-2]\<close> and \<open>[-1]\<close> are all in bounds.
\<close>

theorem parse_pwrstat_total: "\<exists>d. parse_pwrstat stdout_text = Inr d"
  unfolding parse_pwrstat_def by (rule parse_lines_total)

text \<open>
  C1, as the code has it. For every line that the loop processes (not empty, with at least
  one period), the key is the trimmed first piece, and the value is the trimmed
  second-to-last piece when the text "Remaining Runtime" occurs anywhere in the line, and
  the trimmed last piece when it does not. A line whose label is "Remaining Runtime"
  contains that text, so its value is always the second-to-last piece.
\<close>

theorem parse_line_value:
  assumes "line \<noteq> []" and "CHR ''.'' \<in> set line"
  shows "parse_line line =
           Inr (py_strip (hd (py_split CHR ''.'' line)),
                py_strip (if py_in ''Remaining Runtime'' line
                          then py_split CHR ''.'' line ! (length (py_split CHR ''.'' line) - 2)
                          else last (py_split CHR ''.'' line)))
         \<and> (py_strip (hd (py_split CHR ''.'' line)) = ''Remaining Runtime''
              \<longrightarrow> py_in ''Remaining Runtime'' line
                \<and> parse_line line =
                    Inr (''Remaining Runtime'',
                         py_strip (py_split CHR ''.'' line ! (length (py_split CHR ''.'' line) - 2))))"
proof (intro conjI impI)
  show res: "parse_line line =
           Inr (py_strip (hd (py_split CHR ''.'' line)),
                py_strip (if py_in ''Remaining Runtime'' line
                          then py_split CHR ''.'' line ! (length (py_split CHR ''.'' line) - 2)
                          else last (py_split CHR ''.'' line)))"
    using assms(2) by (rule parse_line_result)
  assume lbl: "py_strip (hd (py_split CHR ''.'' line)) = ''Remaining Runtime''"
  then show inl: "py_in ''Remaining Runtime'' line" by (rule label_in_line)
  from res lbl inl show "parse_line line =
      Inr (''Remaining Runtime'',
           py_strip (py_split CHR ''.'' line ! (length (py_split CHR ''.'' line) - 2)))"
    by simp
qed

theorem parse_line_value_witness:
  "parse_line ''Remaining Runtime............. 45 min.'' = Inr (''Remaining Runtime'', ''45 min'')"
  using parse_line_value [of "''Remaining Runtime............. 45 min.''"]
  by (simp add: py_strip_def py_isspace_def)

text \<open>
  C1, as the claim states it, fails: the line below has the label "Note", not
  "Remaining Runtime", and yet its value is the second-to-last piece ("5 min") and not the
  last one ("ok"), because the text "Remaining Runtime" occurs further right in the line.
\<close>

theorem parse_line_other_label_counterexample:
  "parse_line ''Note.. Remaining Runtime. 5 min. ok'' = Inr (''Note'', ''5 min'')
   \<and> py_strip (hd (py_split CHR ''.'' ''Note.. Remaining Runtime. 5 min. ok''))
       \<noteq> ''Remaining Runtime''
   \<and> py_strip (last (py_split CHR ''.'' ''Note.. Remaining Runtime. 5 min. ok'')) = ''ok''"
  by (simp add: parse_line_def py_getitem_def py_strip_def py_isspace_def)

text \<open>
  C6, as the code has it. For a status text that consists of three header lines and then N
  lines, each of them not empty and with at least one period, \<open>parse_pwrstat\<close> returns a
  dictionary whose keys are exactly the labels of the N lines (the text before the first
  period, trimmed). It has at most N entries, and exactly N entries if and only if the labels
  of the lines are pairwise different: a later line with the same label overwrites the
  entry of the earlier one.
\<close>

theorem parse_pwrstat_entries:
  assumes "CHR ''\<newline>'' \<notin> set h1" and "CHR ''\<newline>'' \<notin> set h2" and "CHR ''\<newline>'' \<notin> set h3"
    and "\<forall>l\<in>set lines. l \<noteq> [] \<and> CHR ''.'' \<in> set l \<and> CHR ''\<newline>'' \<notin> set l"
  shows "\<exists>d. parse_pwrstat (join_lines (h1 # h2 # h3 # lines)) = Inr d
           \<and> dom d = set (map line_label lines)
           \<and> card (dom d) \<le> length lines
           \<and> (card (dom d) = length lines) = distinct (map line_label lines)"
proof -
  have "py_split CHR ''\<newline>'' (join_lines (h1 # h2 # h3 # lines)) = h1 # h2 # h3 # lines"
    using assms by (intro py_split_join_lines) auto
  then have p: "parse_pwrstat (join_lines (h1 # h2 # h3 # lines)) = parse_lines Map.empty lines"
    by (simp add: parse_pwrstat_def)
  from assms(4) have "\<forall>l\<in>set lines. l \<noteq> [] \<and> CHR ''.'' \<in> set l" by simp
  from parse_lines_dom [OF this, of Map.empty] obtain d where
    d: "parse_lines Map.empty lines = Inr d" "dom d = set (map line_label lines)" by auto
  have "card (set (map line_label lines)) \<le> length lines"
    using card_length [of "map line_label lines"] by simp
  moreover have "(card (set (map line_label lines)) = length lines) = distinct (map line_label lines)"
    using card_distinct [of "map line_label lines"] distinct_card [of "map line_label lines"]
    by auto
  ultimately show ?thesis using p d by simp
qed

theorem parse_pwrstat_entries_witness:
  "\<exists>d. parse_pwrstat (join_lines ['''', ''The UPS information shows as following:'', '''',
          ''State........................ Normal'', ''Load.......................... 72 Watt(8 %)''])
         = Inr d
       \<and> dom d = {''State'', ''Load''} \<and> card (dom d) = 2"
  using parse_pwrstat_entries [of "''''" "''The UPS information shows as following:''" "''''"
      "[''State........................ Normal'', ''Load.......................... 72 Watt(8 %)'']"]
  by (simp add: line_label_def py_strip_def py_isspace_def numeral_2_eq_2) blast

text \<open>
  C6, as the claim states it, fails: the text below has two well-formed lines after the
  header, and the dictionary has one entry, because both lines have the label "Load".
\<close>

theorem duplicate_label_counterexample:
  "parse_pwrstat (join_lines [''h1'', ''h2'', ''h3'', ''Load. 1'', ''Load. 2''])
     = Inr [''Load'' \<mapsto> ''2'']
   \<and> card (dom [''Load'' \<mapsto> ''2'']) = 1
   \<and> length [''Load. 1'', ''Load. 2''] = 2"
  by (simp add: parse_pwrstat_def parse_line_def py_getitem_def py_strip_def py_isspace_def)

section \<open>Facts about write_influxdb\<close>

lemma first_word: "py_getitem (py_split CHR '' '' raw) 0 = Inr (hd (py_split CHR '' '' raw))"
  by (rule py_getitem_first) (rule py_split_not_Nil)

lemma tags_loop_present:
  "\<forall>l\<in>set keys. d l \<noteq> None \<Longrightarrow> \<exists>b. tags_loop d keys body = Inr b"
  by (induction keys arbitrary: body) (auto simp: first_word)

lemma tags_loop_absent:
  "\<exists>l\<in>set keys. d l = None \<Longrightarrow>
     \<exists>k. tags_loop d keys body = Inl (KeyError k) \<and> k \<in> set keys \<and> d k = None"
proof (induction keys arbitrary: body)
  case Nil
  then show ?case by simp
next
  case (Cons key keys)
  show ?case
  proof (cases "d key")
    case None
    then show ?thesis by auto
  next
    case (Some raw)
    with Cons.prems have "\<exists>l\<in>set keys. d l = None" by auto
    from Cons.IH [OF this] Some show ?thesis by (auto simp: first_word)
  qed
qed

lemma tags_loop_error:
  "tags_loop d keys body = Inl e \<Longrightarrow> \<exists>k. e = KeyError k \<and> k \<in> set keys \<and> d k = None"
proof (induction keys arbitrary: body)
  case Nil
  then show ?case by simp
next
  case (Cons key keys)
  show ?case
  proof (cases "d key")
    case None
    with Cons.prems show ?thesis by auto
  next
    case (Some raw)
    with Cons.prems have "tags_loop d keys (body\<lparr>tags := (tags body)(remove_spaces key \<mapsto> hd (py_split CHR '' '' raw))\<rparr>) = Inl e"
      by (simp add: first_word)
    from Cons.IH [OF this] show ?thesis by auto
  qed
qed

lemma transform_value_error:
  "transform_value float_of k tok = Inl e \<Longrightarrow> e = ValueError tok"
  by (auto simp: transform_value_def IMPORTANT_PWRSTAT_STAT_KEYS_TRANSFORMS_def py_float_def
      split: if_splits option.splits)

lemma transform_value_float:
  "k \<noteq> ''State'' \<Longrightarrow> transform_value float_of k tok = py_float float_of tok"
  by (simp add: transform_value_def IMPORTANT_PWRSTAT_STAT_KEYS_TRANSFORMS_def)

lemma fields_loop_step:
  assumes "d k = Some raw" "transform_value float_of k (hd (py_split CHR '' '' raw)) = Inr v"
  shows "fields_loop float_of d (k # keys) body =
     fields_loop float_of d keys (body\<lparr>fields' := (fields' body)(remove_spaces k \<mapsto> v)\<rparr>)"
  using assms by (simp add: first_word)

lemma coercibleE:
  assumes "coercible float_of d k"
  obtains raw v where "d k = Some raw"
    "transform_value float_of k (hd (py_split CHR '' '' raw)) = Inr v"
  using assms by (auto simp: coercible_def split: option.splits sum.splits)

lemma fields_loop_all:
  "\<forall>l\<in>set keys. coercible float_of d l \<Longrightarrow> \<exists>b. fields_loop float_of d keys body = Inr b"
proof (induction keys arbitrary: body)
  case Nil
  show ?case by simp
next
  case (Cons k keys)
  then have "coercible float_of d k" by simp
  then obtain raw v where kv: "d k = Some raw"
    "transform_value float_of k (hd (py_split CHR '' '' raw)) = Inr v"
    by (rule coercibleE)
  from Cons.prems have "\<forall>l\<in>set keys. coercible float_of d l" by simp
  from Cons.IH [OF this] show ?case
    by (simp only: fields_loop_step [where d = d and k = k, OF kv])
qed

lemma fields_loop_prefix:
  "\<forall>l\<in>set pre. coercible float_of d l \<Longrightarrow>
     \<exists>body'. fields_loop float_of d (pre @ rest) body = fields_loop float_of d rest body'"
proof (induction pre arbitrary: body)
  case Nil
  show ?case by auto
next
  case (Cons k pre)
  then have "coercible float_of d k" by simp
  then obtain raw v where kv: "d k = Some raw"
    "transform_value float_of k (hd (py_split CHR '' '' raw)) = Inr v"
    by (rule coercibleE)
  from Cons.prems have "\<forall>l\<in>set pre. coercible float_of d l" by simp
  from Cons.IH [OF this] show ?case
    by (simp only: append_Cons fields_loop_step [where d = d and k = k, OF kv])
qed

lemma fields_loop_missing:
  assumes "\<forall>l\<in>set pre. coercible float_of d l" "d k = None"
  shows "fields_loop float_of d (pre @ k # post) body = Inl (KeyError k)"
proof -
  obtain body' where "fields_loop float_of d (pre @ k # post) body
      = fields_loop float_of d (k # post) body'"
    using fields_loop_prefix [OF assms(1)] by blast
  with assms(2) show ?thesis by simp
qed

lemma fields_loop_uncoercible:
  assumes "\<forall>l\<in>set pre. coercible float_of d l" "d k = Some raw"
    "transform_value float_of k (hd (py_split CHR '' '' raw)) = Inl e"
  shows "fields_loop float_of d (pre @ k # post) body = Inl (ValueError (hd (py_split CHR '' '' raw)))"
proof -
  obtain body' where "fields_loop float_of d (pre @ k # post) body
      = fields_loop float_of d (k # post) body'"
    using fields_loop_prefix [OF assms(1)] by blast
  moreover from assms(3) have "e = ValueError (hd (py_split CHR '' '' raw))"
    by (rule transform_value_error)
  ultimately show ?thesis using assms(2,3) by (simp add: first_word)
qed

lemma fields_loop_KeyError:
  "fields_loop float_of d keys body = Inl (KeyError k) \<Longrightarrow>
     \<exists>pre post. keys = pre @ k # post \<and> (\<forall>l\<in>set pre. coercible float_of d l) \<and> d k = None"
proof (induction keys arbitrary: body)
  case Nil
  then show ?case by simp
next
  case (Cons key keys)
  show ?case
  proof (cases "d key")
    case None
    with Cons.prems have "k = key" by simp
    with None have "key # keys = [] @ k # keys \<and> (\<forall>l\<in>set []. coercible float_of d l) \<and> d k = None"
      by simp
    then show ?thesis by blast
  next
    case (Some raw)
    show ?thesis
    proof (cases "transform_value float_of key (hd (py_split CHR '' '' raw))")
      case (Inl e)
      then have "e = ValueError (hd (py_split CHR '' '' raw))" by (rule transform_value_error)
      with Cons.prems Some Inl show ?thesis by (simp add: first_word)
    next
      case (Inr v)
      from Cons.prems have "fields_loop float_of d keys
          (body\<lparr>fields' := (fields' body)(remove_spaces key \<mapsto> v)\<rparr>) = Inl (KeyError k)"
        by (simp only: fields_loop_step [where d = d and k = key, OF Some Inr])
      from Cons.IH [OF this] obtain pre post where
        pp: "keys = pre @ k # post" "\<forall>l\<in>set pre. coercible float_of d l" "d k = None"
        by blast
      from Some Inr have "coercible float_of d key" by (simp add: coercible_def)
      with pp have "key # keys = (key # pre) @ k # post
          \<and> (\<forall>l\<in>set (key # pre). coercible float_of d l) \<and> d k = None" by simp
      then show ?thesis by blast
    qed
  qed
qed

lemma build_tags_missing:
  assumes "\<exists>l\<in>set IMPORTANT_PWRSTAT_TAG_KEYS. d l = None"
  shows "\<exists>k. build_json_body float_of series_name d = Inl (KeyError k)"
proof -
  obtain k where "tags_loop d IMPORTANT_PWRSTAT_TAG_KEYS
      \<lparr>measurement = series_name, tags = Map.empty, fields' = Map.empty, time = None\<rparr>
      = Inl (KeyError k)"
    using tags_loop_absent [OF assms] by blast
  then show ?thesis by (simp add: build_json_body_def)
qed

lemma build_tags_present:
  assumes "\<forall>l\<in>set IMPORTANT_PWRSTAT_TAG_KEYS. d l \<noteq> None"
  shows "\<exists>b. build_json_body float_of series_name d
           = fields_loop float_of d IMPORTANT_PWRSTAT_VALUE_KEYS b"
proof -
  obtain b where "tags_loop d IMPORTANT_PWRSTAT_TAG_KEYS
      \<lparr>measurement = series_name, tags = Map.empty, fields' = Map.empty, time = None\<rparr> = Inr b"
    using tags_loop_present [OF assms] by blast
  then have "build_json_body float_of series_name d
           = fields_loop float_of d IMPORTANT_PWRSTAT_VALUE_KEYS b"
    by (simp add: build_json_body_def)
  then show ?thesis by blast
qed

lemma build_KeyError_cases:
  assumes "build_json_body float_of series_name d = Inl (KeyError k)"
  shows "(k \<in> set IMPORTANT_PWRSTAT_TAG_KEYS \<and> d k = None) \<or>
    ((\<forall>l\<in>set IMPORTANT_PWRSTAT_TAG_KEYS. d l \<noteq> None) \<and>
     (\<exists>pre post. IMPORTANT_PWRSTAT_VALUE_KEYS = pre @ k # post
        \<and> (\<forall>l\<in>set pre. coercible float_of d l) \<and> d k = None))"
proof (cases "tags_loop d IMPORTANT_PWRSTAT_TAG_KEYS
      \<lparr>measurement = series_name, tags = Map.empty, fields' = Map.empty, time = None\<rparr>")
  case (Inl e)
  with assms have "e = KeyError k" by (simp add: build_json_body_def)
  with tags_loop_error [OF Inl] show ?thesis by auto
next
  case (Inr b)
  have present: "\<forall>l\<in>set IMPORTANT_PWRSTAT_TAG_KEYS. d l \<noteq> None"
  proof (rule ccontr)
    assume "\<not> ?thesis"
    then have "\<exists>l\<in>set IMPORTANT_PWRSTAT_TAG_KEYS. d l = None" by simp
    from tags_loop_absent [OF this, where body = "\<lparr>measurement = series_name, tags = Map.empty,
        fields' = Map.empty, time = None\<rparr>"] Inr
    show False by auto
  qed
  from Inr assms have "fields_loop float_of d IMPORTANT_PWRSTAT_VALUE_KEYS b = Inl (KeyError k)"
    by (simp add: build_json_body_def)
  from fields_loop_KeyError [OF this] present show ?thesis by blast
qed

lemma write_influxdb_failure:
  "build_json_body float_of series_name d = Inl e \<Longrightarrow>
     write_influxdb float_of env series_name d dry = ([], Inl e)"
  by (simp add: write_influxdb_def)

lemma absent_not_coercible: "d l = None \<Longrightarrow> \<not> coercible float_of d l"
  by (simp add: coercible_def)

lemma fields_loop_fails:
  assumes "\<exists>l\<in>set keys. \<not> coercible float_of d l"
  shows "\<exists>e. fields_loop float_of d keys body = Inl e"
proof -
  from split_list_first_prop [OF assms] obtain pre k post where
    sp: "keys = pre @ k # post" "\<not> coercible float_of d k" "\<forall>l\<in>set pre. \<not> \<not> coercible float_of d l"
    by blast
  then have pre: "\<forall>l\<in>set pre. coercible float_of d l" by simp
  show ?thesis
  proof (cases "d k")
    case None
    from fields_loop_missing [OF pre None] sp(1) show ?thesis by blast
  next
    case (Some raw)
    with sp(2) obtain e where "transform_value float_of k (hd (py_split CHR '' '' raw)) = Inl e"
      by (auto simp: coercible_def split: sum.splits)
    from fields_loop_uncoercible [OF pre Some this] sp(1) show ?thesis by blast
  qed
qed

lemma fields_loop_ValueError:
  assumes "\<forall>l\<in>set keys. d l \<noteq> None" "\<exists>l\<in>set keys. \<not> coercible float_of d l"
  shows "\<exists>x. fields_loop float_of d keys body = Inl (ValueError x)"
proof -
  from split_list_first_prop [OF assms(2)] obtain pre k post where
    sp: "keys = pre @ k # post" "\<not> coercible float_of d k" "\<forall>l\<in>set pre. \<not> \<not> coercible float_of d l"
    by blast
  then have pre: "\<forall>l\<in>set pre. coercible float_of d l" by simp
  from sp(1) assms(1) obtain raw where raw: "d k = Some raw" by auto
  with sp(2) obtain e where "transform_value float_of k (hd (py_split CHR '' '' raw)) = Inl e"
    by (auto simp: coercible_def split: sum.splits)
  from fields_loop_uncoercible [OF pre raw this] sp(1) show ?thesis by blast
qed

lemma float_of_digits_values:
  "float_of_digits ''120'' = Some 120" "float_of_digits ''100'' = Some 100"
  "float_of_digits ''45'' = Some 45" "float_of_digits ''30'' = Some 30"
  "float_of_digits ''n/a'' = None"
  by (simp_all add: float_of_digits_def is_digit_def)

section \<open>Claims about write_influxdb\<close>

text \<open>
  C2. For the dictionary of the specification's example, the field mapper gives exactly
  the tags ModelName "ModelX", FirmwareNumber "1.2", RatingVoltage "120", RatingPower "500"
  and exactly the fields State 0.0, UtilityVoltage 120.0, OutputVoltage 120.0,
  BatteryCapacity 100.0, RemainingRuntime 45.0, Load 30.0. The only facts used about the
  builtin \<open>float\<close> are its values at "120", "100", "45" and "30".
\<close>

theorem build_json_body_fixture:
  assumes "float_of ''120'' = Some 120" and "float_of ''100'' = Some 100"
    and "float_of ''45'' = Some 45" and "float_of ''30'' = Some 30"
  shows "build_json_body float_of series_name
     [''Model Name'' \<mapsto> ''ModelX 1000'', ''Firmware Number'' \<mapsto> ''1.2'',
      ''Rating Voltage'' \<mapsto> ''120 V'', ''Rating Power'' \<mapsto> ''500 Watt'',
      ''State'' \<mapsto> ''Normal'', ''Utility Voltage'' \<mapsto> ''120 V'',
      ''Output Voltage'' \<mapsto> ''120 V'', ''Battery Capacity'' \<mapsto> ''100 Percent'',
      ''Remaining Runtime'' \<mapsto> ''45 min'', ''Load'' \<mapsto> ''30 Watt(20.0 %)'']
    = Inr \<lparr>measurement = series_name,
        tags = [''ModelName'' \<mapsto> ''ModelX'', ''FirmwareNumber'' \<mapsto> ''1.2'',
                ''RatingVoltage'' \<mapsto> ''120'', ''RatingPower'' \<mapsto> ''500''],
        fields' = [''State'' \<mapsto> 0, ''UtilityVoltage'' \<mapsto> 120, ''OutputVoltage'' \<mapsto> 120,
                  ''BatteryCapacity'' \<mapsto> 100, ''RemainingRuntime'' \<mapsto> 45, ''Load'' \<mapsto> 30],
        time = None\<rparr>"
  using assms
  by (simp add: build_json_body_def IMPORTANT_PWRSTAT_TAG_KEYS_def IMPORTANT_PWRSTAT_VALUE_KEYS_def
      IMPORTANT_PWRSTAT_STAT_KEYS_TRANSFORMS_def transform_value_def py_float_def py_getitem_def
      remove_spaces_def)

theorem build_json_body_fixture_witness:
  "build_json_body float_of_digits ''ups''
     [''Model Name'' \<mapsto> ''ModelX 1000'', ''Firmware Number'' \<mapsto> ''1.2'',
      ''Rating Voltage'' \<mapsto> ''120 V'', ''Rating Power'' \<mapsto> ''500 Watt'',
      ''State'' \<mapsto> ''Normal'', ''Utility Voltage'' \<mapsto> ''120 V'',
      ''Output Voltage'' \<mapsto> ''120 V'', ''Battery Capacity'' \<mapsto> ''100 Percent'',
      ''Remaining Runtime'' \<mapsto> ''45 min'', ''Load'' \<mapsto> ''30 Watt(20.0 %)'']
    = Inr \<lparr>measurement = ''ups'',
        tags = [''ModelName'' \<mapsto> ''ModelX'', ''FirmwareNumber'' \<mapsto> ''1.2'',
                ''RatingVoltage'' \<mapsto> ''120'', ''RatingPower'' \<mapsto> ''500''],
        fields' = [''State'' \<mapsto> 0, ''UtilityVoltage'' \<mapsto> 120, ''OutputVoltage'' \<mapsto> 120,
                  ''BatteryCapacity'' \<mapsto> 100, ''RemainingRuntime'' \<mapsto> 45, ''Load'' \<mapsto> 30],
        time = None\<rparr>"
  using build_json_body_fixture [of float_of_digits "''ups''"]
  by (simp add: float_of_digits_values)

text \<open>
  C3, as the code has it. The field mapper fails with KeyError exactly when a tag key is
  missing, or a value key is missing and every value key before it in the list is there with
  a first word that passes its transform. Whenever a tag key or a value key is missing, the
  mapper fails (with KeyError, or with the ValueError that an earlier value key raised), and
  when the mapper fails \<open>write_influxdb\<close> raises the same exception with no event at all:
  nothing is logged and nothing is written.
\<close>

theorem build_json_body_KeyError_iff:
  "((\<exists>k. build_json_body float_of series_name d = Inl (KeyError k)) =
      ((\<exists>l\<in>set IMPORTANT_PWRSTAT_TAG_KEYS. d l = None) \<or>
       (\<exists>pre k post. IMPORTANT_PWRSTAT_VALUE_KEYS = pre @ k # post
          \<and> (\<forall>l\<in>set pre. coercible float_of d l) \<and> d k = None)))
   \<and> ((\<exists>l\<in>set IMPORTANT_PWRSTAT_TAG_KEYS \<union> set IMPORTANT_PWRSTAT_VALUE_KEYS. d l = None)
        \<longrightarrow> (\<exists>e. build_json_body float_of series_name d = Inl e))
   \<and> (\<forall>e. build_json_body float_of series_name d = Inl e
        \<longrightarrow> write_influxdb float_of env series_name d dry = ([], Inl e))"
proof (intro conjI iffI impI allI)
  assume "\<exists>k. build_json_body float_of series_name d = Inl (KeyError k)"
  then obtain k where "build_json_body float_of series_name d = Inl (KeyError k)" by blast
  from build_KeyError_cases [OF this]
  show "(\<exists>l\<in>set IMPORTANT_PWRSTAT_TAG_KEYS. d l = None) \<or>
       (\<exists>pre k post. IMPORTANT_PWRSTAT_VALUE_KEYS = pre @ k # post
          \<and> (\<forall>l\<in>set pre. coercible float_of d l) \<and> d k = None)"
    by blast
next
  assume rhs: "(\<exists>l\<in>set IMPORTANT_PWRSTAT_TAG_KEYS. d l = None) \<or>
       (\<exists>pre k post. IMPORTANT_PWRSTAT_VALUE_KEYS = pre @ k # post
          \<and> (\<forall>l\<in>set pre. coercible float_of d l) \<and> d k = None)"
  show "\<exists>k. build_json_body float_of series_name d = Inl (KeyError k)"
  proof (cases "\<exists>l\<in>set IMPORTANT_PWRSTAT_TAG_KEYS. d l = None")
    case True
    then show ?thesis by (rule build_tags_missing)
  next
    case False
    then have "\<forall>l\<in>set IMPORTANT_PWRSTAT_TAG_KEYS. d l \<noteq> None" by simp
    from build_tags_present [OF this] obtain b where
      b: "build_json_body float_of series_name d
           = fields_loop float_of d IMPORTANT_PWRSTAT_VALUE_KEYS b" by blast
    from rhs False obtain pre k post where
      "IMPORTANT_PWRSTAT_VALUE_KEYS = pre @ k # post"
      "\<forall>l\<in>set pre. coercible float_of d l" "d k = None" by blast
    with fields_loop_missing [of pre float_of d k post b] b show ?thesis by auto
  qed
next
  assume "\<exists>l\<in>set IMPORTANT_PWRSTAT_TAG_KEYS \<union> set IMPORTANT_PWRSTAT_VALUE_KEYS. d l = None"
  then have any: "(\<exists>l\<in>set IMPORTANT_PWRSTAT_TAG_KEYS. d l = None)
      \<or> (\<exists>l\<in>set IMPORTANT_PWRSTAT_VALUE_KEYS. d l = None)"
    by (simp add: bex_Un)
  show "\<exists>e. build_json_body float_of series_name d = Inl e"
  proof (cases "\<exists>l\<in>set IMPORTANT_PWRSTAT_TAG_KEYS. d l = None")
    case True
    from build_tags_missing [OF this] show ?thesis by blast
  next
    case False
    then have "\<forall>l\<in>set IMPORTANT_PWRSTAT_TAG_KEYS. d l \<noteq> None" by simp
    from build_tags_present [OF this] obtain b where
      b: "build_json_body float_of series_name d
           = fields_loop float_of d IMPORTANT_PWRSTAT_VALUE_KEYS b" by blast
    from any False have "\<exists>l\<in>set IMPORTANT_PWRSTAT_VALUE_KEYS. d l = None" by simp
    then have "\<exists>l\<in>set IMPORTANT_PWRSTAT_VALUE_KEYS. \<not> coercible float_of d l"
      using absent_not_coercible by blast
    from fields_loop_fails [OF this] b show ?thesis by simp
  qed
next
  fix e assume "build_json_body float_of series_name d = Inl e"
  then show "write_influxdb float_of env series_name d dry = ([], Inl e)"
    by (rule write_influxdb_failure)
qed

theorem build_json_body_KeyError_iff_witness:
  "(\<exists>k. build_json_body float_of_digits ''ups''
     [''Model Name'' \<mapsto> ''ModelX 1000'', ''Firmware Number'' \<mapsto> ''1.2'',
      ''Rating Voltage'' \<mapsto> ''120 V'', ''Rating Power'' \<mapsto> ''500 Watt'',
      ''State'' \<mapsto> ''Normal'', ''Utility Voltage'' \<mapsto> ''120 V'',
      ''Output Voltage'' \<mapsto> ''120 V'', ''Battery Capacity'' \<mapsto> ''100 Percent'',
      ''Remaining Runtime'' \<mapsto> ''45 min''] = Inl (KeyError k))
   \<and> [''Model Name'' \<mapsto> ''ModelX 1000'', ''Firmware Number'' \<mapsto> ''1.2'',
      ''Rating Voltage'' \<mapsto> ''120 V'', ''Rating Power'' \<mapsto> ''500 Watt'',
      ''State'' \<mapsto> ''Normal'', ''Utility Voltage'' \<mapsto> ''120 V'',
      ''Output Voltage'' \<mapsto> ''120 V'', ''Battery Capacity'' \<mapsto> ''100 Percent'',
      ''Remaining Runtime'' \<mapsto> ''45 min''] ''Load'' = None"
proof -
  let ?d = "[''Model Name'' \<mapsto> ''ModelX 1000'', ''Firmware Number'' \<mapsto> ''1.2'',
      ''Rating Voltage'' \<mapsto> ''120 V'', ''Rating Power'' \<mapsto> ''500 Watt'',
      ''State'' \<mapsto> ''Normal'', ''Utility Voltage'' \<mapsto> ''120 V'',
      ''Output Voltage'' \<mapsto> ''120 V'', ''Battery Capacity'' \<mapsto> ''100 Percent'',
      ''Remaining Runtime'' \<mapsto> ''45 min'']"
  have pre: "\<forall>l\<in>set [''State'', ''Utility Voltage'', ''Output Voltage'', ''Battery Capacity'',
      ''Remaining Runtime'']. coercible float_of_digits ?d l"
    by (simp add: coercible_def transform_value_def IMPORTANT_PWRSTAT_STAT_KEYS_TRANSFORMS_def
        py_float_def float_of_digits_values)
  have "IMPORTANT_PWRSTAT_VALUE_KEYS = [''State'', ''Utility Voltage'', ''Output Voltage'',
      ''Battery Capacity'', ''Remaining Runtime''] @ ''Load'' # []"
    by (simp add: IMPORTANT_PWRSTAT_VALUE_KEYS_def)
  moreover have "?d ''Load'' = None" by simp
  ultimately have "\<exists>pre k post. IMPORTANT_PWRSTAT_VALUE_KEYS = pre @ k # post
      \<and> (\<forall>l\<in>set pre. coercible float_of_digits ?d l) \<and> ?d k = None"
    using pre by blast
  then have "\<exists>k. build_json_body float_of_digits ''ups'' ?d = Inl (KeyError k)"
    using build_json_body_KeyError_iff [of float_of_digits "''ups''" ?d] by blast
  then show ?thesis by simp
qed

text \<open>
  C3, as the claim states it, fails: in the dictionary below the value key "Load" is
  missing, and yet the mapper does not fail with KeyError but with ValueError, because the
  earlier value key "Utility Voltage" has the value "n/a", which is no float.
\<close>

theorem missing_label_ValueError_counterexample:
  "build_json_body float_of_digits ''ups''
     [''Model Name'' \<mapsto> ''ModelX 1000'', ''Firmware Number'' \<mapsto> ''1.2'',
      ''Rating Voltage'' \<mapsto> ''120 V'', ''Rating Power'' \<mapsto> ''500 Watt'',
      ''State'' \<mapsto> ''Normal'', ''Utility Voltage'' \<mapsto> ''n/a'',
      ''Output Voltage'' \<mapsto> ''120 V'', ''Battery Capacity'' \<mapsto> ''100 Percent'',
      ''Remaining Runtime'' \<mapsto> ''45 min''] = Inl (ValueError ''n/a'')
   \<and> [''Model Name'' \<mapsto> ''ModelX 1000'', ''Firmware Number'' \<mapsto> ''1.2'',
      ''Rating Voltage'' \<mapsto> ''120 V'', ''Rating Power'' \<mapsto> ''500 Watt'',
      ''State'' \<mapsto> ''Normal'', ''Utility Voltage'' \<mapsto> ''n/a'',
      ''Output Voltage'' \<mapsto> ''120 V'', ''Battery Capacity'' \<mapsto> ''100 Percent'',
      ''Remaining Runtime'' \<mapsto> ''45 min''] ''Load'' = None
   \<and> ''Load'' \<in> set IMPORTANT_PWRSTAT_VALUE_KEYS"
  by (simp add: build_json_body_def IMPORTANT_PWRSTAT_TAG_KEYS_def IMPORTANT_PWRSTAT_VALUE_KEYS_def
      IMPORTANT_PWRSTAT_STAT_KEYS_TRANSFORMS_def transform_value_def py_float_def py_getitem_def
      remove_spaces_def float_of_digits_values)

text \<open>
  C4. When every tag key and value key is in the dictionary, and for some value key other
  than "State" (the one key whose transform replaces \<open>float\<close>; the transform of "Battery
  Capacity" is \<open>float\<close> itself) the first word of the value is no float, the field mapper
  fails with ValueError, and \<open>write_influxdb\<close> raises it without logging or writing
  anything: no body is built, so no value is turned into zero and no field is left out.
\<close>

theorem build_json_body_ValueError:
  assumes "\<forall>l\<in>set IMPORTANT_PWRSTAT_TAG_KEYS \<union> set IMPORTANT_PWRSTAT_VALUE_KEYS. d l \<noteq> None"
    and "stat_key \<in> set IMPORTANT_PWRSTAT_VALUE_KEYS" and "stat_key \<noteq> ''State''"
    and "d stat_key = Some raw" and "float_of (hd (py_split CHR '' '' raw)) = None"
  shows "\<exists>x. build_json_body float_of series_name d = Inl (ValueError x)
           \<and> write_influxdb float_of env series_name d dry = ([], Inl (ValueError x))"
proof -
  from assms(1) have "\<forall>l\<in>set IMPORTANT_PWRSTAT_TAG_KEYS. d l \<noteq> None" by simp
  from build_tags_present [OF this] obtain b where
    b: "build_json_body float_of series_name d
         = fields_loop float_of d IMPORTANT_PWRSTAT_VALUE_KEYS b" by blast
  from assms(3,5) have "transform_value float_of stat_key (hd (py_split CHR '' '' raw))
      = Inl (ValueError (hd (py_split CHR '' '' raw)))"
    by (simp add: transform_value_float py_float_def)
  with assms(4) have "\<not> coercible float_of d stat_key" by (simp add: coercible_def)
  with assms(2) have some: "\<exists>l\<in>set IMPORTANT_PWRSTAT_VALUE_KEYS. \<not> coercible float_of d l"
    by blast
  from assms(1) have "\<forall>l\<in>set IMPORTANT_PWRSTAT_VALUE_KEYS. d l \<noteq> None" by simp
  from fields_loop_ValueError [OF this some] obtain x where
    "fields_loop float_of d IMPORTANT_PWRSTAT_VALUE_KEYS b = Inl (ValueError x)" by blast
  with b have "build_json_body float_of series_name d = Inl (ValueError x)" by simp
  then show ?thesis using write_influxdb_failure by blast
qed

theorem build_json_body_ValueError_witness:
  "\<exists>x. build_json_body float_of_digits ''ups''
     [''Model Name'' \<mapsto> ''ModelX 1000'', ''Firmware Number'' \<mapsto> ''1.2'',
      ''Rating Voltage'' \<mapsto> ''120 V'', ''Rating Power'' \<mapsto> ''500 Watt'',
      ''State'' \<mapsto> ''Normal'', ''Utility Voltage'' \<mapsto> ''n/a V'',
      ''Output Voltage'' \<mapsto> ''120 V'', ''Battery Capacity'' \<mapsto> ''100 Percent'',
      ''Remaining Runtime'' \<mapsto> ''45 min'', ''Load'' \<mapsto> ''30 Watt(20.0 %)''] = Inl (ValueError x)
   \<and> write_influxdb float_of_digits
        \<lparr>returncode = 0, out = [], err = [], utcnow = ''2020-01-01T00:00:00'',
          write_points_result = True\<rparr> ''ups''
     [''Model Name'' \<mapsto> ''ModelX 1000'', ''Firmware Number'' \<mapsto> ''1.2'',
      ''Rating Voltage'' \<mapsto> ''120 V'', ''Rating Power'' \<mapsto> ''500 Watt'',
      ''State'' \<mapsto> ''Normal'', ''Utility Voltage'' \<mapsto> ''n/a V'',
      ''Output Voltage'' \<mapsto> ''120 V'', ''Battery Capacity'' \<mapsto> ''100 Percent'',
      ''Remaining Runtime'' \<mapsto> ''45 min'', ''Load'' \<mapsto> ''30 Watt(20.0 %)''] False = ([], Inl (ValueError x))"
proof -
  let ?d = "[''Model Name'' \<mapsto> ''ModelX 1000'', ''Firmware Number'' \<mapsto> ''1.2'',
      ''Rating Voltage'' \<mapsto> ''120 V'', ''Rating Power'' \<mapsto> ''500 Watt'',
      ''State'' \<mapsto> ''Normal'', ''Utility Voltage'' \<mapsto> ''n/a V'',
      ''Output Voltage'' \<mapsto> ''120 V'', ''Battery Capacity'' \<mapsto> ''100 Percent'',
      ''Remaining Runtime'' \<mapsto> ''45 min'', ''Load'' \<mapsto> ''30 Watt(20.0 %)'']"
  have "\<forall>l\<in>set IMPORTANT_PWRSTAT_TAG_KEYS \<union> set IMPORTANT_PWRSTAT_VALUE_KEYS. ?d l \<noteq> None"
    by (simp add: IMPORTANT_PWRSTAT_TAG_KEYS_def IMPORTANT_PWRSTAT_VALUE_KEYS_def)
  moreover have "''Utility Voltage'' \<in> set IMPORTANT_PWRSTAT_VALUE_KEYS"
    by (simp add: IMPORTANT_PWRSTAT_VALUE_KEYS_def)
  moreover have "''Utility Voltage'' \<noteq> ''State''" by simp
  moreover have "?d ''Utility Voltage'' = Some ''n/a V''" by simp
  moreover have "float_of_digits (hd (py_split CHR '' '' ''n/a V'')) = None"
    by (simp add: float_of_digits_values)
  ultimately show ?thesis by (rule build_json_body_ValueError)
qed

text \<open>
  C5. The transform of "State" maps the one string "Normal" to 0.0 and every other string
  to 1.0.
\<close>

theorem state_transform_sentinel:
  "\<exists>transform. IMPORTANT_PWRSTAT_STAT_KEYS_TRANSFORMS float_of ''State'' = Some transform
     \<and> transform ''Normal'' = Inr 0
     \<and> (\<forall>x. transform x = Inr (if x = ''Normal'' then 0 else 1))
     \<and> (\<forall>x. (transform x = Inr 0) = (x = ''Normal''))"
  by (simp add: IMPORTANT_PWRSTAT_STAT_KEYS_TRANSFORMS_def)

section \<open>Facts about run_scrape\<close>

lemma example_parse: "parse_pwrstat example_status_text = Inr example_dict"
  by (simp add: example_status_text_def example_dict_def parse_pwrstat_def parse_line_def
      py_getitem_def py_strip_def py_isspace_def)

lemma example_build: "build_json_body float_of_digits ''ups'' example_dict = Inr example_body"
  by (simp add: example_dict_def example_body_def build_json_body_def
      IMPORTANT_PWRSTAT_TAG_KEYS_def IMPORTANT_PWRSTAT_VALUE_KEYS_def
      IMPORTANT_PWRSTAT_STAT_KEYS_TRANSFORMS_def transform_value_def py_float_def py_getitem_def
      remove_spaces_def float_of_digits_values)

lemma sleep_nonneg_values:
  "sleep_nonneg 15 = None"
  "sleep_nonneg (- 1) = Some (ValueError ''sleep length must be non-negative'')"
  by (simp_all add: sleep_nonneg_def)

lemma scrape_cycle_nonzero:
  "returncode env \<noteq> 0 \<Longrightarrow>
     scrape_cycle sleep_of float_of args env =
       ([RunCommand STAT_COMMAND,
         LogError (''Error executing ['pwrstat', '-status']: '' @ py_strip (err env))],
        Returned)"
  by (simp add: scrape_cycle_def)

lemma scrape_cycle_dry:
  assumes "dry_run args" "returncode env = 0" "parse_pwrstat (out env) = Inr d"
    "build_json_body float_of (series args) d = Inr body"
  shows "scrape_cycle sleep_of float_of args env =
       ([RunCommand STAT_COMMAND, LogDebug (body\<lparr>time := Some (utcnow env)\<rparr>),
         Sleep (interval args)],
        (case sleep_of (interval args) of None \<Rightarrow> Running | Some e \<Rightarrow> Raised e))"
  using assms by (simp add: scrape_cycle_def write_influxdb_def Let_def)

lemma scrape_cycle_raises:
  assumes "returncode env = 0" "parse_pwrstat (out env) = Inr d"
    "build_json_body float_of (series args) d = Inl e"
  shows "scrape_cycle sleep_of float_of args env = ([RunCommand STAT_COMMAND], Raised e)"
  using assms by (simp add: scrape_cycle_def write_influxdb_def Let_def)

lemma scrape_cycle_write_failed:
  assumes "\<not> dry_run args" "returncode env = 0" "parse_pwrstat (out env) = Inr d"
    "build_json_body float_of (series args) d = Inr body" "\<not> write_points_result env"
  shows "scrape_cycle sleep_of float_of args env =
       ([RunCommand STAT_COMMAND, LogDebug (body\<lparr>time := Some (utcnow env)\<rparr>),
         WritePoints [body\<lparr>time := Some (utcnow env)\<rparr>],
         LogError ''Error writing to InfluxDB!'', Sleep (interval args)],
        (case sleep_of (interval args) of None \<Rightarrow> Running | Some e \<Rightarrow> Raised e))"
  using assms by (simp add: scrape_cycle_def write_influxdb_def Let_def)

lemma scrape_cycle_written:
  assumes "\<not> dry_run args" "returncode env = 0" "parse_pwrstat (out env) = Inr d"
    "build_json_body float_of (series args) d = Inr body" "write_points_result env"
  shows "scrape_cycle sleep_of float_of args env =
       ([RunCommand STAT_COMMAND, LogDebug (body\<lparr>time := Some (utcnow env)\<rparr>),
         WritePoints [body\<lparr>time := Some (utcnow env)\<rparr>], Sleep (interval args)],
        (case sleep_of (interval args) of None \<Rightarrow> Running | Some e \<Rightarrow> Raised e))"
  using assms by (simp add: scrape_cycle_def write_influxdb_def Let_def)

lemma write_influxdb_dry_no_write:
  "dry \<Longrightarrow> \<forall>ev\<in>set (fst (write_influxdb float_of env series_name d dry)). \<not> is_write ev"
  by (simp add: write_influxdb_def split: sum.splits)

lemma scrape_cycle_dry_no_write:
  assumes "dry_run args"
  shows "\<forall>ev\<in>set (fst (scrape_cycle sleep_of float_of args env)). \<not> is_write ev"
proof (cases "returncode env = 0")
  case False
  then show ?thesis by (simp add: scrape_cycle_nonzero)
next
  case True
  obtain d where d: "parse_pwrstat (out env) = Inr d"
    using parse_pwrstat_total by blast
  obtain evs r where w: "write_influxdb float_of env (series args) d (dry_run args) = (evs, r)"
    by (cases "write_influxdb float_of env (series args) d (dry_run args)")
  with write_influxdb_dry_no_write [OF assms, where float_of = float_of and env = env
      and series_name = "series args" and d = d]
  have "\<forall>ev\<in>set evs. \<not> is_write ev" by simp
  with True d w show ?thesis
    by (cases r) (simp_all add: scrape_cycle_def)
qed

lemma scrape_loop_Cons:
  "scrape_loop sleep_of float_of args (env # envs) =
     (if snd (scrape_cycle sleep_of float_of args env) = Running
      then (fst (scrape_cycle sleep_of float_of args env)
              @ fst (scrape_loop sleep_of float_of args envs),
            snd (scrape_loop sleep_of float_of args envs))
      else scrape_cycle sleep_of float_of args env)"
  by (cases "scrape_cycle sleep_of float_of args env";
      cases "snd (scrape_cycle sleep_of float_of args env)")
     (auto split: prod.splits)

declare scrape_loop.simps(2) [simp del]

lemma scrape_loop_append:
  "scrape_loop sleep_of float_of args before = (evs, Running) \<Longrightarrow>
     scrape_loop sleep_of float_of args (before @ rest) =
       (evs @ fst (scrape_loop sleep_of float_of args rest),
        snd (scrape_loop sleep_of float_of args rest))"
proof (induction before arbitrary: evs)
  case Nil
  then show ?case by simp
next
  case (Cons env before)
  show ?case
  proof (cases "snd (scrape_cycle sleep_of float_of args env) = Running")
    case False
    with Cons.prems show ?thesis by (simp add: scrape_loop_Cons)
  next
    case True
    with Cons.prems have
      evs: "evs = fst (scrape_cycle sleep_of float_of args env)
              @ fst (scrape_loop sleep_of float_of args before)"
      and st: "snd (scrape_loop sleep_of float_of args before) = Running"
      by (simp_all add: scrape_loop_Cons)
    then have "scrape_loop sleep_of float_of args before
        = (fst (scrape_loop sleep_of float_of args before), Running)"
      by (metis prod.collapse)
    from Cons.IH [OF this] True evs show ?thesis
      by (simp add: scrape_loop_Cons)
  qed
qed

lemma scrape_loop_dry_no_write:
  assumes "dry_run args"
  shows "\<forall>ev\<in>set (fst (scrape_loop sleep_of float_of args envs)). \<not> is_write ev"
proof (induction envs)
  case Nil
  show ?case by simp
next
  case (Cons env envs)
  with scrape_cycle_dry_no_write [OF assms, where sleep_of = sleep_of and float_of = float_of
      and env = env]
  show ?case
    by (auto simp: scrape_loop_Cons)
qed

lemma run_scrape_dry_no_write:
  assumes "dry_run args"
  shows "\<forall>ev\<in>set (fst (run_scrape sleep_of float_of args config ping_response client_repr envs)).
           \<not> is_write ev"
  using scrape_loop_dry_no_write [OF assms, where sleep_of = sleep_of and float_of = float_of
      and envs = envs]
  by (auto simp: run_scrape_def split: prod.splits)

lemma example_pass:
  "scrape_loop sleep_nonneg float_of_digits \<lparr>series = ''ups'', dry_run = False, interval = 15\<rparr>
      [example_env]
    = ([RunCommand STAT_COMMAND,
       LogDebug (example_body\<lparr>time := Some ''2020-01-01T00:00:00''\<rparr>),
       WritePoints [example_body\<lparr>time := Some ''2020-01-01T00:00:00''\<rparr>],
       Sleep 15], Running)"
  by (simp add: scrape_loop_Cons scrape_cycle_def write_influxdb_def example_env_def
      example_parse example_build Let_def sleep_nonneg_values)

section \<open>Claims about run_scrape\<close>

text \<open>
  C7. In a pass of the scrape loop in which the status command exits with a code other
  than zero, the pass runs the command and logs the error, and nothing else: the output is
  not parsed, no body is built, nothing is written to the sink. The loop returns there:
  when the passes before it all went through, the run ends with these two events and the
  status \<open>Returned\<close>, whatever the outside world would have answered afterwards.
\<close>

theorem scrape_loop_command_failure:
  assumes "returncode env \<noteq> 0"
    and "scrape_loop sleep_of float_of args before = (evs, Running)"
  shows "scrape_cycle sleep_of float_of args env =
           ([RunCommand STAT_COMMAND,
             LogError (''Error executing ['pwrstat', '-status']: '' @ py_strip (err env))],
            Returned)
         \<and> scrape_loop sleep_of float_of args (before @ env # after) =
           (evs @ [RunCommand STAT_COMMAND,
                   LogError (''Error executing ['pwrstat', '-status']: '' @ py_strip (err env))],
            Returned)"
proof -
  have c: "scrape_cycle sleep_of float_of args env =
           ([RunCommand STAT_COMMAND,
             LogError (''Error executing ['pwrstat', '-status']: '' @ py_strip (err env))],
            Returned)"
    using assms(1) by (rule scrape_cycle_nonzero)
  then have "scrape_loop sleep_of float_of args (env # after) =
           ([RunCommand STAT_COMMAND,
             LogError (''Error executing ['pwrstat', '-status']: '' @ py_strip (err env))],
            Returned)"
    by (simp add: scrape_loop_Cons)
  with scrape_loop_append [OF assms(2), of "env # after"] c show ?thesis by simp
qed

theorem scrape_loop_command_failure_witness:
  "scrape_loop sleep_nonneg float_of_digits
     \<lparr>series = ''ups'', dry_run = False, interval = 15\<rparr>
     [example_env,
      \<lparr>returncode = 1, out = example_status_text, err = ''pwrstat: daemon not running '',
        utcnow = ''2020-01-01T00:00:15'', write_points_result = True\<rparr>,
      example_env]
   = ([RunCommand STAT_COMMAND,
       LogDebug (example_body\<lparr>time := Some ''2020-01-01T00:00:00''\<rparr>),
       WritePoints [example_body\<lparr>time := Some ''2020-01-01T00:00:00''\<rparr>],
       Sleep 15,
       RunCommand STAT_COMMAND,
       LogError ''Error executing ['pwrstat', '-status']: pwrstat: daemon not running''],
      Returned)"
proof -
  have "returncode \<lparr>returncode = 1, out = example_status_text,
      err = ''pwrstat: daemon not running '', utcnow = ''2020-01-01T00:00:15'',
      write_points_result = True\<rparr> \<noteq> 0" by simp
  from scrape_loop_command_failure [OF this example_pass, of "[example_env]"] show ?thesis
    by (simp add: py_strip_def py_isspace_def)
qed

text \<open>
  C8. In dry-run mode no event of a run of \<open>run_scrape\<close> is a write to the sink, however
  many passes the loop makes. A pass whose command exits with zero still parses the output
  and builds the body, time stamp included: the body is what the pass logs before it
  sleeps, and a failure of the field mapper is still raised.
\<close>

theorem dry_run_no_write:
  assumes "dry_run args"
  shows "(\<forall>ev\<in>set (fst (run_scrape sleep_of float_of args config ping_response client_repr envs)).
            \<not> is_write ev)
       \<and> (\<forall>env d body.
             returncode env = 0 \<and> parse_pwrstat (out env) = Inr d
               \<and> build_json_body float_of (series args) d = Inr body
             \<longrightarrow> scrape_cycle sleep_of float_of args env =
                   ([RunCommand STAT_COMMAND, LogDebug (body\<lparr>time := Some (utcnow env)\<rparr>),
                     Sleep (interval args)],
                    (case sleep_of (interval args) of None \<Rightarrow> Running | Some e \<Rightarrow> Raised e)))
       \<and> (\<forall>env d e.
             returncode env = 0 \<and> parse_pwrstat (out env) = Inr d
               \<and> build_json_body float_of (series args) d = Inl e
             \<longrightarrow> scrape_cycle sleep_of float_of args env = ([RunCommand STAT_COMMAND], Raised e))"
proof (intro conjI allI impI)
  show "\<forall>ev\<in>set (fst (run_scrape sleep_of float_of args config ping_response client_repr envs)).
      \<not> is_write ev"
    using assms by (rule run_scrape_dry_no_write)
next
  fix env :: cycle_env and d body
  assume "returncode env = 0 \<and> parse_pwrstat (out env) = Inr d
      \<and> build_json_body float_of (series args) d = Inr body"
  with assms show "scrape_cycle sleep_of float_of args env =
      ([RunCommand STAT_COMMAND, LogDebug (body\<lparr>time := Some (utcnow env)\<rparr>),
        Sleep (interval args)],
       (case sleep_of (interval args) of None \<Rightarrow> Running | Some e \<Rightarrow> Raised e))"
    by (simp add: scrape_cycle_dry)
next
  fix env :: cycle_env and d e
  assume "returncode env = 0 \<and> parse_pwrstat (out env) = Inr d
      \<and> build_json_body float_of (series args) d = Inl e"
  then show "scrape_cycle sleep_of float_of args env = ([RunCommand STAT_COMMAND], Raised e)"
    by (simp add: scrape_cycle_raises)
qed

theorem dry_run_no_write_witness:
  "run_scrape sleep_nonneg float_of_digits \<lparr>series = ''ups'', dry_run = True, interval = 15\<rparr>
     \<lparr>db = ''ups'', admin = False\<rparr> ''1.8.10'' ''client'' [example_env, example_env]
   = ([Ping, LogInfo ''Connected to InfluxDB: 1.8.10'', LogInfo ''InfluxDB URL: client'',
       LogInfo ''Starting up scraper...'',
       RunCommand STAT_COMMAND,
       LogDebug (example_body\<lparr>time := Some ''2020-01-01T00:00:00''\<rparr>), Sleep 15,
       RunCommand STAT_COMMAND,
       LogDebug (example_body\<lparr>time := Some ''2020-01-01T00:00:00''\<rparr>), Sleep 15],
      Running)"
proof -
  let ?args = "\<lparr>series = ''ups'', dry_run = True, interval = 15\<rparr>"
  have "dry_run ?args" by simp
  from dry_run_no_write [OF this, where sleep_of = sleep_nonneg and float_of = float_of_digits]
  have "\<forall>env d body.
          returncode env = 0 \<and> parse_pwrstat (out env) = Inr d
            \<and> build_json_body float_of_digits (series ?args) d = Inr body
          \<longrightarrow> scrape_cycle sleep_nonneg float_of_digits ?args env =
                ([RunCommand STAT_COMMAND, LogDebug (body\<lparr>time := Some (utcnow env)\<rparr>),
                  Sleep (interval ?args)],
                 (case sleep_nonneg (interval ?args) of None \<Rightarrow> Running | Some e \<Rightarrow> Raised e))"
    by blast
  moreover have "returncode example_env = 0 \<and> parse_pwrstat (out example_env) = Inr example_dict
      \<and> build_json_body float_of_digits (series ?args) example_dict = Inr example_body"
    by (simp add: example_env_def example_parse example_build)
  ultimately have "scrape_cycle sleep_nonneg float_of_digits ?args example_env =
      ([RunCommand STAT_COMMAND, LogDebug (example_body\<lparr>time := Some (utcnow example_env)\<rparr>),
        Sleep (interval ?args)],
       (case sleep_nonneg (interval ?args) of None \<Rightarrow> Running | Some e \<Rightarrow> Raised e))"
    by blast
  then show ?thesis
    by (simp add: run_scrape_def scrape_loop_Cons example_env_def sleep_nonneg_values)
qed

text \<open>
  C9, as the code has it. In a pass in which the sink answers the write with a false
  result, the pass logs the debug line, writes, logs the error "Error writing to
  InfluxDB!" and calls \<open>time.sleep\<close>, and the failed write does not change how the pass
  ends: it ends as the same pass with a successful write ends. When the call of
  \<open>time.sleep\<close> with the interval returns, the pass ends with the loop still running, and
  the run goes on with the next passes exactly as they would run on their own.
\<close>

theorem write_failure_continues:
  assumes "\<not> dry_run args" and "returncode env = 0" and "parse_pwrstat (out env) = Inr d"
    and "build_json_body float_of (series args) d = Inr body"
    and "\<not> write_points_result env"
  shows "fst (scrape_cycle sleep_of float_of args env) =
           [RunCommand STAT_COMMAND, LogDebug (body\<lparr>time := Some (utcnow env)\<rparr>),
            WritePoints [body\<lparr>time := Some (utcnow env)\<rparr>],
            LogError ''Error writing to InfluxDB!'', Sleep (interval args)]
         \<and> snd (scrape_cycle sleep_of float_of args env) =
             snd (scrape_cycle sleep_of float_of args (env\<lparr>write_points_result := True\<rparr>))
         \<and> (sleep_of (interval args) = None \<longrightarrow>
              snd (scrape_cycle sleep_of float_of args env) = Running
              \<and> (\<forall>before evs after.
                    scrape_loop sleep_of float_of args before = (evs, Running) \<longrightarrow>
                    scrape_loop sleep_of float_of args (before @ env # after) =
                      (evs @ [RunCommand STAT_COMMAND,
                              LogDebug (body\<lparr>time := Some (utcnow env)\<rparr>),
                              WritePoints [body\<lparr>time := Some (utcnow env)\<rparr>],
                              LogError ''Error writing to InfluxDB!'', Sleep (interval args)]
                           @ fst (scrape_loop sleep_of float_of args after),
                       snd (scrape_loop sleep_of float_of args after))))"
proof (intro conjI impI allI)
  have c: "scrape_cycle sleep_of float_of args env =
       ([RunCommand STAT_COMMAND, LogDebug (body\<lparr>time := Some (utcnow env)\<rparr>),
         WritePoints [body\<lparr>time := Some (utcnow env)\<rparr>],
         LogError ''Error writing to InfluxDB!'', Sleep (interval args)],
        (case sleep_of (interval args) of None \<Rightarrow> Running | Some e \<Rightarrow> Raised e))"
    using assms by (rule scrape_cycle_write_failed)
  then show "fst (scrape_cycle sleep_of float_of args env) =
           [RunCommand STAT_COMMAND, LogDebug (body\<lparr>time := Some (utcnow env)\<rparr>),
            WritePoints [body\<lparr>time := Some (utcnow env)\<rparr>],
            LogError ''Error writing to InfluxDB!'', Sleep (interval args)]"
    by simp
  have "scrape_cycle sleep_of float_of args (env\<lparr>write_points_result := True\<rparr>) =
       ([RunCommand STAT_COMMAND,
         LogDebug (body\<lparr>time := Some (utcnow (env\<lparr>write_points_result := True\<rparr>))\<rparr>),
         WritePoints [body\<lparr>time := Some (utcnow (env\<lparr>write_points_result := True\<rparr>))\<rparr>],
         Sleep (interval args)],
        (case sleep_of (interval args) of None \<Rightarrow> Running | Some e \<Rightarrow> Raised e))"
    using assms(1-4) by (intro scrape_cycle_written) simp_all
  with c show "snd (scrape_cycle sleep_of float_of args env) =
      snd (scrape_cycle sleep_of float_of args (env\<lparr>write_points_result := True\<rparr>))"
    by simp
  assume returns: "sleep_of (interval args) = None"
  with c show "snd (scrape_cycle sleep_of float_of args env) = Running" by simp
  fix before evs after
  assume before: "scrape_loop sleep_of float_of args before = (evs, Running)"
  from c returns have "scrape_loop sleep_of float_of args (env # after) =
           ([RunCommand STAT_COMMAND, LogDebug (body\<lparr>time := Some (utcnow env)\<rparr>),
             WritePoints [body\<lparr>time := Some (utcnow env)\<rparr>],
             LogError ''Error writing to InfluxDB!'', Sleep (interval args)]
              @ fst (scrape_loop sleep_of float_of args after),
            snd (scrape_loop sleep_of float_of args after))"
    by (simp add: scrape_loop_Cons)
  with scrape_loop_append [OF before, of "env # after"]
  show "scrape_loop sleep_of float_of args (before @ env # after) =
      (evs @ [RunCommand STAT_COMMAND, LogDebug (body\<lparr>time := Some (utcnow env)\<rparr>),
              WritePoints [body\<lparr>time := Some (utcnow env)\<rparr>],
              LogError ''Error writing to InfluxDB!'', Sleep (interval args)]
           @ fst (scrape_loop sleep_of float_of args after),
       snd (scrape_loop sleep_of float_of args after))"
    by simp
qed

theorem write_failure_continues_witness:
  "scrape_loop sleep_nonneg float_of_digits
     \<lparr>series = ''ups'', dry_run = False, interval = 15\<rparr>
     [example_env\<lparr>write_points_result := False\<rparr>, example_env]
   = ([RunCommand STAT_COMMAND,
       LogDebug (example_body\<lparr>time := Some ''2020-01-01T00:00:00''\<rparr>),
       WritePoints [example_body\<lparr>time := Some ''2020-01-01T00:00:00''\<rparr>],
       LogError ''Error writing to InfluxDB!'', Sleep 15,
       RunCommand STAT_COMMAND,
       LogDebug (example_body\<lparr>time := Some ''2020-01-01T00:00:00''\<rparr>),
       WritePoints [example_body\<lparr>time := Some ''2020-01-01T00:00:00''\<rparr>],
       Sleep 15],
      Running)"
proof -
  let ?args = "\<lparr>series = ''ups'', dry_run = False, interval = 15\<rparr>"
  let ?env = "example_env\<lparr>write_points_result := False\<rparr>"
  have "\<not> dry_run ?args" by simp
  moreover have "returncode ?env = 0" by (simp add: example_env_def)
  moreover have "parse_pwrstat (out ?env) = Inr example_dict"
    by (simp add: example_env_def example_parse)
  moreover have "build_json_body float_of_digits (series ?args) example_dict = Inr example_body"
    by (simp add: example_build)
  moreover have "\<not> write_points_result ?env" by simp
  ultimately have "sleep_nonneg (interval ?args) = None \<longrightarrow>
      (\<forall>before evs after.
          scrape_loop sleep_nonneg float_of_digits ?args before = (evs, Running) \<longrightarrow>
          scrape_loop sleep_nonneg float_of_digits ?args (before @ ?env # after) =
            (evs @ [RunCommand STAT_COMMAND,
                    LogDebug (example_body\<lparr>time := Some (utcnow ?env)\<rparr>),
                    WritePoints [example_body\<lparr>time := Some (utcnow ?env)\<rparr>],
                    LogError ''Error writing to InfluxDB!'', Sleep (interval ?args)]
                 @ fst (scrape_loop sleep_nonneg float_of_digits ?args after),
             snd (scrape_loop sleep_nonneg float_of_digits ?args after)))"
    using write_failure_continues [where sleep_of = sleep_nonneg and float_of = float_of_digits
        and args = ?args and env = ?env and d = example_dict and body = example_body]
    by blast
  moreover have "sleep_nonneg (interval ?args) = None" by (simp add: sleep_nonneg_values)
  moreover have "scrape_loop sleep_nonneg float_of_digits ?args [] = ([], Running)" by simp
  ultimately have "scrape_loop sleep_nonneg float_of_digits ?args ([] @ ?env # [example_env]) =
            ([] @ [RunCommand STAT_COMMAND,
                    LogDebug (example_body\<lparr>time := Some (utcnow ?env)\<rparr>),
                    WritePoints [example_body\<lparr>time := Some (utcnow ?env)\<rparr>],
                    LogError ''Error writing to InfluxDB!'', Sleep (interval ?args)]
                 @ fst (scrape_loop sleep_nonneg float_of_digits ?args [example_env]),
             snd (scrape_loop sleep_nonneg float_of_digits ?args [example_env]))"
    by blast
  then show ?thesis
    by (simp add: example_pass [unfolded example_env_def] example_env_def)
qed

text \<open>
  C9, as the claim states it, fails: with the interval -1, which \<open>--interval\<close> accepts, the
  pass in which the write fails logs the error and then leaves the loop with the
  ValueError of \<open>time.sleep\<close>; the pass does not complete and the next pass never starts.
\<close>

theorem negative_interval_counterexample:
  "scrape_loop sleep_nonneg float_of_digits
     \<lparr>series = ''ups'', dry_run = False, interval = - 1\<rparr>
     [example_env\<lparr>write_points_result := False\<rparr>, example_env]
   = ([RunCommand STAT_COMMAND,
       LogDebug (example_body\<lparr>time := Some ''2020-01-01T00:00:00''\<rparr>),
       WritePoints [example_body\<lparr>time := Some ''2020-01-01T00:00:00''\<rparr>],
       LogError ''Error writing to InfluxDB!'', Sleep (- 1)],
      Raised (ValueError ''sleep length must be non-negative''))"
  by (simp add: scrape_loop_Cons scrape_cycle_def write_influxdb_def example_env_def
      example_parse example_build Let_def sleep_nonneg_values)

end
